theory Spec2Isabelle
  imports Main
begin

section \<open>Data model of the CNCI agent (networking/cnci\_agent/client.go)\<close>

text \<open>
  A frame payload is a byte slice. A Go \<open>error\<close> value is modelled by its message;
  \<open>None\<close> stands for \<open>nil\<close>.
\<close>

type_synonym payload = string
type_synonym err = string

text \<open>
  The values a \<open>cmdWrapper\<close> can carry. The four payload structs live in the external
  package \<open>payloads\<close>; their decoded content is the type parameter \<open>'y\<close>.
  \<open>OtherCmd\<close> stands for any other dynamic type of the \<open>interface{}\<close> field, which
  \<open>processCommand\<close> sends to its \<open>default\<close> branch.
\<close>

datatype 'y cmd =
    EventTenantAdded 'y
  | EventTenantRemoved 'y
  | CommandAssignPublicIP 'y
  | CommandReleasePublicIP 'y
  | StatusConnected
  | OtherCmd

text \<open>The SSNTP command and event codes the agent switches on (package \<open>ssntp\<close>).\<close>

datatype ssntp_command = AssignPublicIP | ReleasePublicIP | OtherCommand nat

datatype ssntp_event = TenantAdded | TenantRemoved | ConcentratorInstanceAdded | OtherEvent nat

text \<open>The six notifications of the \<open>ssntp.ClientNotifier\<close> interface.\<close>

datatype notification =
    Connect
  | Disconnect
  | Status nat
  | Error nat
  | Command ssntp_command payload
  | Event ssntp_event payload

text \<open>The Go type of the variable that \<open>yaml.Unmarshal\<close> fills.\<close>

datatype target = TAssignIP | TReleaseIP | TTenantAdded | TTenantRemoved

text \<open>
  \<open>yaml.Unmarshal\<close> is external: it is a parameter of the model, \<open>None\<close> when it
  returns an error.
\<close>

type_synonym 'y unmarshal = "target \<Rightarrow> payload \<Rightarrow> 'y option"

datatype level = LInfo | LWarning | LError

datatype backend = AddRemoteSubnet | DelRemoteSubnet | AssignPubIP | ReleasePubIP

text \<open>
  What a piece of code does besides updating its own variables, in program order.
  \<open>Go body\<close> is a \<open>go func() {...}()\<close> statement: the body runs in a goroutine of
  its own, and the statement itself returns at once. \<open>CmdChSend\<close> is a send on the
  unbuffered channel \<open>cmdCh\<close>, which blocks the goroutine executing it until the
  connection loop receives. Log messages keep their format string only.
\<close>

datatype 'y effect =
    Glog level string
  | CmdChSend "'y cmd"
  | Go "'y effect list"
  | Call backend 'y
  | SendNetworkEvent ssntp_event
  | Close
  | StatusChSend

subsection \<open>The connection status flag\<close>

record ssntpConn =
  connected :: bool

definition isConnected :: "ssntpConn \<Rightarrow> bool" where
  "isConnected s = connected s"

definition setStatus :: "ssntpConn \<Rightarrow> bool \<Rightarrow> ssntpConn" where
  "setStatus s status = s\<lparr>connected := status\<rparr>"

subsection \<open>The notification callbacks\<close>

text \<open>
  Each callback returns the client after the call and what the call did. In
  \<open>ConnectNotify\<close> and \<open>DisconnectNotify\<close> the flag is written first.
\<close>

definition DisconnectNotify :: "ssntpConn \<Rightarrow> ssntpConn \<times> 'y effect list" where
  "DisconnectNotify client = (setStatus client False, [Glog LWarning ''disconnected''])"

definition ConnectNotify :: "ssntpConn \<Rightarrow> ssntpConn \<times> 'y effect list" where
  "ConnectNotify client =
     (setStatus client True, [CmdChSend StatusConnected, Glog LInfo ''connected''])"

definition StatusNotify :: "ssntpConn \<Rightarrow> nat \<Rightarrow> ssntpConn \<times> 'y effect list" where
  "StatusNotify client status = (client, [Glog LInfo ''STATUS %s''])"

definition ErrorNotify :: "ssntpConn \<Rightarrow> nat \<Rightarrow> ssntpConn \<times> 'y effect list" where
  "ErrorNotify client e = (client, [Glog LInfo ''ERROR %d''])"

text \<open>The body shared by the four decoding goroutines, for one target type.\<close>

definition decode ::
  "'y unmarshal \<Rightarrow> target \<Rightarrow> ('y \<Rightarrow> 'y cmd) \<Rightarrow> string \<Rightarrow> payload \<Rightarrow> 'y effect list" where
  "decode um t wrap msg p =
     (case um t p of
        None \<Rightarrow> [Glog LWarning ''Error unmarshalling StartFailure'']
      | Some v \<Rightarrow> [Glog LInfo msg, CmdChSend (wrap v)])"

fun CommandNotify ::
  "'y unmarshal \<Rightarrow> ssntpConn \<Rightarrow> ssntp_command \<Rightarrow> payload \<Rightarrow> ssntpConn \<times> 'y effect list" where
  "CommandNotify um client AssignPublicIP p =
     (client, [Glog LInfo ''CMD: ssntp.AssignPublicIP %v'',
               Go (decode um TAssignIP CommandAssignPublicIP ''EVENT: ssntp.AssignPublicIP %v'' p)])"
| "CommandNotify um client ReleasePublicIP p =
     (client, [Glog LInfo ''CMD: ssntp.ReleasePublicIP %v'',
               Go (decode um TReleaseIP CommandReleasePublicIP ''EVENT: ssntp.ReleasePublicIP %s'' p)])"
| "CommandNotify um client (OtherCommand k) p = (client, [Glog LInfo ''CMD: %s''])"

fun EventNotify ::
  "'y unmarshal \<Rightarrow> ssntpConn \<Rightarrow> ssntp_event \<Rightarrow> payload \<Rightarrow> ssntpConn \<times> 'y effect list" where
  "EventNotify um client TenantAdded p =
     (client, [Glog LInfo ''EVENT: ssntp.TenantAdded %v'',
               Go (decode um TTenantAdded EventTenantAdded ''EVENT: ssntp.TenantAdded %s'' p)])"
| "EventNotify um client TenantRemoved p =
     (client, [Glog LInfo ''EVENT: ssntp.TenantRemoved %v'',
               Go (decode um TTenantRemoved EventTenantRemoved ''EVENT: ssntp.TenantRemoved %s'' p)])"
| "EventNotify um client ev p = (client, [Glog LInfo ''EVENT %s''])"

text \<open>The session calls the callback that belongs to the notification.\<close>

fun notify :: "'y unmarshal \<Rightarrow> notification \<Rightarrow> ssntpConn \<Rightarrow> ssntpConn \<times> 'y effect list" where
  "notify um Connect client = ConnectNotify client"
| "notify um Disconnect client = DisconnectNotify client"
| "notify um (Status st) client = StatusNotify client st"
| "notify um (Error e) client = ErrorNotify client e"
| "notify um (Command c p) client = CommandNotify um client c p"
| "notify um (Event ev p) client = EventNotify um client ev p"

text \<open>
  The commands a piece of code sends on \<open>cmdCh\<close>: \<open>inline_sends\<close> by itself,
  \<open>sends_of\<close> also through the goroutines it starts.
\<close>

fun sends_of :: "'y effect \<Rightarrow> 'y cmd list" where
  "sends_of (CmdChSend c) = [c]"
| "sends_of (Go body) = concat (map sends_of body)"
| "sends_of _ = []"

definition all_sends :: "'y effect list \<Rightarrow> 'y cmd list" where
  "all_sends es = concat (map sends_of es)"

fun inline_send :: "'y effect \<Rightarrow> 'y cmd list" where
  "inline_send (CmdChSend c) = [c]"
| "inline_send _ = []"

definition inline_sends :: "'y effect list \<Rightarrow> 'y cmd list" where
  "inline_sends es = concat (map inline_send es)"

text \<open>
  What a callback can do without holding up the goroutine that called it: write a log
  record, or start a goroutine.
\<close>

fun hands_off :: "'y effect \<Rightarrow> bool" where
  "hands_off (Glog lv m) = True"
| "hands_off (Go body) = True"
| "hands_off e = False"

subsection \<open>processCommand\<close>

text \<open>
  Every branch but the default one makes one external call; \<open>res\<close> is the error that
  call returns. In the first four branches the call is made by a new goroutine, in the
  \<open>statusConnected\<close> branch by \<open>processCommand\<close> itself.
\<close>

definition task ::
  "err option \<Rightarrow> string \<Rightarrow> backend \<Rightarrow> 'y \<Rightarrow> level \<Rightarrow> string \<Rightarrow> 'y effect" where
  "task res msg b c lv emsg =
     Go ([Glog LInfo msg, Call b c] @ (if res \<noteq> None then [Glog lv emsg] else []))"

fun processCommand :: "err option \<Rightarrow> 'y cmd \<Rightarrow> 'y effect list" where
  "processCommand res (EventTenantAdded c) =
     [task res ''Processing: CiaoEventTenantAdded %v'' AddRemoteSubnet c
        LError ''Error Processing: CiaoEventTenantAdded %v'']"
| "processCommand res (EventTenantRemoved c) =
     [task res ''Processing: CiaoEventTenantRemoved %v'' DelRemoteSubnet c
        LError ''Error Processing: CiaoEventTenantRemoved %v'']"
| "processCommand res (CommandAssignPublicIP c) =
     [task res ''Processing: CiaoCommandAssignPublicIP %v'' AssignPubIP c
        LInfo ''Error Processing: CiaoCommandAssignPublicIP %v'']"
| "processCommand res (CommandReleasePublicIP c) =
     [task res ''Processing: CiaoCommandReleasePublicIP %v'' ReleasePubIP c
        LError ''Error Processing: CiaoCommandReleasePublicIP %v'']"
| "processCommand res StatusConnected =
     [Glog LInfo ''Processing: status connected'', SendNetworkEvent ConcentratorInstanceAdded]
     @ (if res \<noteq> None then [Glog LError ''Unable to register : %v''] else [])"
| "processCommand res OtherCmd = [Glog LError ''Processing unknown command'']"

section \<open>connectToServer\<close>

text \<open>
  The goroutine started by \<open>connectToServer\<close> calls \<open>client.Dial\<close> and then sends
  the result on the unbuffered channel \<open>dialCh\<close>: it is still in \<open>Dial\<close>, or blocked
  in the send with the result, or its send has been received. The error it logs before
  the send is left out.
\<close>

datatype dial_task = DialRunning | DialSending "err option" | DialDelivered

text \<open>
  The state of the connection loop and of what it shares with the other goroutines:
  the client it created, whether \<open>doneCh\<close> is closed, the dial goroutine, the commands
  that senders blocked on \<open>cmdCh\<close> are offering, the local variable \<open>dialing\<close>,
  whether \<open>connectToServer\<close> has returned, and what the loop itself has done so far.
\<close>

record 'y sys =
  client :: ssntpConn
  doneCh :: bool
  dial :: dial_task
  pending :: "'y cmd list"
  dialing :: bool
  returned :: bool
  trace :: "'y effect list"

definition connectToServer_init :: "'y sys" where
  "connectToServer_init =
     \<lparr>client = \<lparr>connected = False\<rparr>, doneCh = False, dial = DialRunning, pending = [],
      dialing = True, returned = False, trace = []\<rparr>"

datatype control = Continue | BreakDONE

text \<open>
  The three cases of the \<open>select\<close> statement. Each gives the new value of
  \<open>dialing\<close>, whether the loop goes on, and what the case did.
\<close>

definition case_dialCh :: "err option \<Rightarrow> bool \<Rightarrow> bool \<times> control \<times> 'y effect list" where
  "case_dialCh e d = (False, (if e \<noteq> None then BreakDONE else Continue), [])"

definition case_doneCh :: "bool \<Rightarrow> bool \<times> control \<times> 'y effect list" where
  "case_doneCh d = (d, (if \<not> d then BreakDONE else Continue), [Close])"

text \<open>
  The inner \<open>select\<close> has a \<open>default\<close> case: it takes the \<open>doneCh\<close> case exactly
  when the channel is closed at that moment.
\<close>

definition case_cmdCh ::
  "bool \<Rightarrow> err option \<Rightarrow> 'y cmd \<Rightarrow> bool \<Rightarrow> bool \<times> control \<times> 'y effect list" where
  "case_cmdCh done_closed res c d =
     (if done_closed then (d, BreakDONE, [Close])
      else (d, Continue, Glog LInfo ''cmd channel: %v'' # processCommand res c))"

text \<open>
  The end of an iteration. When the loop is left the function returns, and the deferred
  function sends on \<open>statusCh\<close>.
\<close>

fun finish :: "bool \<times> control \<times> 'y effect list \<Rightarrow> 'y sys \<Rightarrow> 'y sys" where
  "finish (d, ctl, es) s =
     s\<lparr>dialing := d, returned := (ctl = BreakDONE),
       trace := trace s @ es @ (if ctl = BreakDONE then [StatusChSend] else [])\<rparr>"

text \<open>
  What can happen next. The first three are steps of the other goroutines: the session
  delivers a notification, \<open>main\<close> closes \<open>doneCh\<close>, \<open>Dial\<close> returns. The last three
  are the cases the outer \<open>select\<close> can take; \<open>SelectCmdCh i res\<close> receives from the
  \<open>i\<close>-th blocked sender, and \<open>res\<close> is what the external call of \<open>processCommand\<close>
  returns.
\<close>

datatype label =
    Deliver notification
  | CloseDone
  | DialReturns "err option"
  | SelectDialCh
  | SelectDoneCh
  | SelectCmdCh nat "err option"

text \<open>One step; \<open>None\<close> when the step cannot happen in this state.\<close>

fun step :: "'y unmarshal \<Rightarrow> label \<Rightarrow> 'y sys \<Rightarrow> 'y sys option" where
  "step um (Deliver n) s =
     (case notify um n (client s) of
        (c, es) \<Rightarrow> Some (s\<lparr>client := c, pending := pending s @ all_sends es\<rparr>))"
| "step um CloseDone s = (if doneCh s then None else Some (s\<lparr>doneCh := True\<rparr>))"
| "step um (DialReturns e) s =
     (if dial s = DialRunning then Some (s\<lparr>dial := DialSending e\<rparr>) else None)"
| "step um SelectDialCh s =
     (if returned s then None
      else case dial s of
             DialSending e \<Rightarrow> Some (finish (case_dialCh e (dialing s)) (s\<lparr>dial := DialDelivered\<rparr>))
           | _ \<Rightarrow> None)"
| "step um SelectDoneCh s =
     (if returned s then None
      else if doneCh s then Some (finish (case_doneCh (dialing s)) s)
      else None)"
| "step um (SelectCmdCh i res) s =
     (if returned s then None
      else if i < length (pending s)
        then Some (finish (case_cmdCh (doneCh s) res (pending s ! i) (dialing s))
                     (s\<lparr>pending := take i (pending s) @ drop (Suc i) (pending s)\<rparr>))
      else None)"

fun run :: "'y unmarshal \<Rightarrow> label list \<Rightarrow> 'y sys \<Rightarrow> 'y sys option" where
  "run um [] s = Some s"
| "run um (l # ls) s = (case step um l s of None \<Rightarrow> None | Some s' \<Rightarrow> run um ls s')"

text \<open>The notifications delivered along a run.\<close>

fun delivered :: "label list \<Rightarrow> notification list" where
  "delivered [] = []"
| "delivered (Deliver n # ls) = n # delivered ls"
| "delivered (l # ls) = delivered ls"

text \<open>
  Whether the most recent connect or disconnect notification of a sequence was a
  connect; \<open>b\<close> when there was none.
\<close>

definition mostRecentIsConnect :: "bool \<Rightarrow> notification list \<Rightarrow> bool" where
  "mostRecentIsConnect b ns =
     (case filter (\<lambda>n. n = Connect \<or> n = Disconnect) ns of
        [] \<Rightarrow> b
      | x # xs \<Rightarrow> last (x # xs) = Connect)"

text \<open>
  Whether the notification is a command or event the agent decodes and its payload
  fails to decode.
\<close>

fun decode_fails :: "'y unmarshal \<Rightarrow> notification \<Rightarrow> bool" where
  "decode_fails um (Command AssignPublicIP p) = (um TAssignIP p = None)"
| "decode_fails um (Command ReleasePublicIP p) = (um TReleaseIP p = None)"
| "decode_fails um (Event TenantAdded p) = (um TTenantAdded p = None)"
| "decode_fails um (Event TenantRemoved p) = (um TTenantRemoved p = None)"
| "decode_fails um n = False"

section \<open>The loop of main\<close>

text \<open>
  \<open>close\<close> on a channel that is already closed is a run-time panic in Go
  (\<open>None\<close>); otherwise the channel is closed afterwards.
\<close>

definition close_chan :: "bool \<Rightarrow> bool option" where
  "close_chan closed = (if closed then None else Some True)"

datatype main_chan = TimeoutCh | WdogCh

datatype main_effect =
    MGlog level string
  | CloseDoneCh
  | GoSleepSend nat main_chan
  | GlogFlush

datatype phase = Looping | Exited | Panicked

text \<open>
  The state of \<open>main\<close> once its loop is reached: whether \<open>doneCh\<close> is closed, how
  many goroutines are going to send on \<open>timeoutCh\<close> and on \<open>wdogCh\<close> (one primes
  the watchdog before the loop), where \<open>main\<close> is, and what it has done.
\<close>

record main_state =
  done_closed :: bool
  timeouts :: nat
  wdogs :: nat
  phase :: phase
  mtrace :: "main_effect list"

definition main_init :: main_state where
  "main_init = \<lparr>done_closed = False, timeouts = 0, wdogs = 1, phase = Looping, mtrace = []\<rparr>"

text \<open>The case the \<open>select\<close> statement of \<open>main\<close> takes.\<close>

datatype main_case = FromSignalCh | FromStatusCh | FromTimeoutCh | FromWdogCh

definition leave :: "main_effect list \<Rightarrow> main_state \<Rightarrow> main_state" where
  "leave es s = s\<lparr>phase := Exited, mtrace := mtrace s @ es @ [GlogFlush, MGlog LInfo ''Exit'']\<rparr>"

text \<open>
  One iteration; \<open>None\<close> when the case cannot be taken: the loop is over, or no
  goroutine is there to send on the channel. A sender on \<open>statusCh\<close> (the connection
  loop returning) and a signal on \<open>signalCh\<close> can be there at any time.
\<close>

fun main_step :: "main_case \<Rightarrow> main_state \<Rightarrow> main_state option" where
  "main_step FromSignalCh s =
     (if phase s \<noteq> Looping then None
      else Some
        (case close_chan (done_closed s) of
           None \<Rightarrow>
             s\<lparr>phase := Panicked,
               mtrace := mtrace s @
                 [MGlog LInfo ''Received terminating signal.  Waiting for server loop to quit'']\<rparr>
         | Some b \<Rightarrow>
             s\<lparr>done_closed := b, timeouts := Suc (timeouts s),
               mtrace := mtrace s @
                 [MGlog LInfo ''Received terminating signal.  Waiting for server loop to quit'',
                  CloseDoneCh, GoSleepSend 1 TimeoutCh]\<rparr>))"
| "main_step FromStatusCh s =
     (if phase s \<noteq> Looping then None
      else Some (leave [MGlog LInfo ''Server Loop quit cleanly''] s))"
| "main_step FromTimeoutCh s =
     (if phase s \<noteq> Looping then None
      else if 0 < timeouts s
        then Some (leave [MGlog LWarning ''Server Loop did not exit within 1 second quitting'']
                     (s\<lparr>timeouts := timeouts s - 1\<rparr>))
      else None)"
| "main_step FromWdogCh s =
     (if phase s \<noteq> Looping then None
      else if 0 < wdogs s
        then Some (s\<lparr>mtrace := mtrace s @ [MGlog LInfo ''Watchdog kicker'', GoSleepSend 5 WdogCh]\<rparr>)
      else None)"

fun main_run :: "main_case list \<Rightarrow> main_state \<Rightarrow> main_state option" where
  "main_run [] s = Some s"
| "main_run (c # cs) s = (case main_step c s of None \<Rightarrow> None | Some s' \<Rightarrow> main_run cs s')"

section \<open>The session goroutine and its callbacks\<close>

text \<open>
  Modelled from the spec: the session delivers its notifications from one execution
  context, so it calls the next callback only when the previous call has returned (the
  library that makes the calls is not part of this file). The goroutine making the calls is
  either between two calls, or inside a callback that is blocked in a send on \<open>cmdCh\<close>,
  with the command it offers and the rest of the callback still to run.
\<close>

datatype 'y session = Idle | InSend "'y cmd" "'y effect list"

text \<open>
  Running a callback's statements in order, up to the first send on \<open>cmdCh\<close> the
  callback makes itself: the commands that the goroutines started on the way will offer,
  and where the calling goroutine is afterwards. Logging and starting a goroutine do not
  hold the caller.
\<close>

fun inline_run :: "'y effect list \<Rightarrow> 'y cmd list \<times> 'y session" where
  "inline_run [] = ([], Idle)"
| "inline_run (CmdChSend c # es) = ([], InSend c es)"
| "inline_run (e # es) = (case inline_run es of (offers, w) \<Rightarrow> (sends_of e @ offers, w))"

text \<open>
  The steps of \<open>step\<close> with the delivery made precise: the session calls a callback,
  the connection loop's \<open>select\<close> receives the command a blocked callback offers (and
  treats it as in its \<open>cmdCh\<close> case, after which the callback runs on), or any other
  goroutine takes a step.
\<close>

datatype slabel = Callback notification | RecvFromCallback "err option" | Other label

fun sstep ::
  "'y unmarshal \<Rightarrow> slabel \<Rightarrow> 'y sys \<times> 'y session \<Rightarrow> ('y sys \<times> 'y session) option" where
  "sstep um (Callback n) (s, Idle) =
     (case notify um n (client s) of
        (c, es) \<Rightarrow>
          (case inline_run es of
             (offers, w) \<Rightarrow> Some (s\<lparr>client := c, pending := pending s @ offers\<rparr>, w)))"
| "sstep um (Callback n) (s, InSend c es) = None"
| "sstep um (RecvFromCallback res) (s, InSend c es) =
     (if returned s then None
      else case inline_run es of
             (offers, w) \<Rightarrow>
               Some (finish (case_cmdCh (doneCh s) res c (dialing s))
                       (s\<lparr>pending := pending s @ offers\<rparr>), w))"
| "sstep um (RecvFromCallback res) (s, Idle) = None"
| "sstep um (Other (Deliver n)) (s, w) = None"
| "sstep um (Other l) (s, w) = (case step um l s of None \<Rightarrow> None | Some s' \<Rightarrow> Some (s', w))"

fun srun ::
  "'y unmarshal \<Rightarrow> slabel list \<Rightarrow> 'y sys \<times> 'y session \<Rightarrow> ('y sys \<times> 'y session) option" where
  "srun um [] x = Some x"
| "srun um (l # ls) x = (case sstep um l x of None \<Rightarrow> None | Some x' \<Rightarrow> srun um ls x')"

text \<open>The statements a piece of code leaves to the goroutines it starts.\<close>

fun spawned :: "'y effect \<Rightarrow> 'y effect list" where
  "spawned (Go body) = body"
| "spawned e = []"

text \<open>The command a notification's payload decodes to, if any.\<close>

fun decoded :: "'y unmarshal \<Rightarrow> notification \<Rightarrow> 'y cmd option" where
  "decoded um (Command AssignPublicIP p) = map_option CommandAssignPublicIP (um TAssignIP p)"
| "decoded um (Command ReleasePublicIP p) = map_option CommandReleasePublicIP (um TReleaseIP p)"
| "decoded um (Event TenantAdded p) = map_option EventTenantAdded (um TTenantAdded p)"
| "decoded um (Event TenantRemoved p) = map_option EventTenantRemoved (um TTenantRemoved p)"
| "decoded um n = None"

section \<open>Properties\<close>

subsection \<open>The connection status flag\<close>

lemma notify_connected:
  "connected (fst (notify um n c)) = (if n = Connect then True else if n = Disconnect then False else connected c)"
proof (cases n)
  case (Command x p) then show ?thesis by (cases x) simp_all
next
  case (Event x p) then show ?thesis by (cases x) simp_all
qed (simp_all add: ConnectNotify_def DisconnectNotify_def StatusNotify_def ErrorNotify_def setStatus_def)

lemma step_connected:
  "step um l s = Some s' \<Longrightarrow>
   connected (client s') = (case l of Deliver n \<Rightarrow> connected (fst (notify um n (client s))) | _ \<Rightarrow> connected (client s))"
  by (cases l) (auto split: if_splits prod.splits dial_task.splits simp: case_dialCh_def case_doneCh_def case_cmdCh_def)

lemma mostRecent_Cons:
  "mostRecentIsConnect b (n # ns) =
     mostRecentIsConnect (if n = Connect then True else if n = Disconnect then False else b) ns"
  by (auto simp: mostRecentIsConnect_def split: list.splits)

lemma run_connected:
  "run um ls s = Some s' \<Longrightarrow>
   connected (client s') = mostRecentIsConnect (connected (client s)) (delivered ls)"
proof (induction ls arbitrary: s)
  case Nil
  then show ?case by (simp add: mostRecentIsConnect_def)
next
  case (Cons l ls)
  from Cons.prems obtain s1 where s1: "step um l s = Some s1" and r: "run um ls s1 = Some s'"
    by (auto split: option.splits)
  from Cons.IH [OF r] have "connected (client s') = mostRecentIsConnect (connected (client s1)) (delivered ls)" .
  moreover from step_connected [OF s1]
  have "connected (client s1) = (case l of Deliver n \<Rightarrow> connected (fst (notify um n (client s))) | _ \<Rightarrow> connected (client s))" .
  ultimately show ?case
    by (cases l) (simp_all add: mostRecent_Cons notify_connected)
qed

lemma run_append:
  "run um (xs @ ys) s = (case run um xs s of None \<Rightarrow> None | Some s' \<Rightarrow> run um ys s')"
  by (induction xs arbitrary: s) (auto split: option.splits)

lemma run_snoc:
  "run um ls s = Some s1 \<Longrightarrow> step um l s1 = Some s2 \<Longrightarrow> run um (ls @ [l]) s = Some s2"
  by (simp add: run_append)

text \<open>
  C1. Whatever has happened since \<open>connectToServer\<close> created the client, \<open>isConnected\<close>
  is true exactly when the most recent connect or disconnect notification delivered was a
  connect (and false when there was none). A step of any goroutine that turns the flag
  from false to true is the delivery of a connect notification, and one that turns it from
  true to false is the delivery of a disconnect notification: nothing else writes it.
\<close>

theorem connection_status_follows_notifications:
  assumes "run um ls connectToServer_init = Some s" and "step um l s = Some s'"
  shows "isConnected (client s) = mostRecentIsConnect False (delivered ls)
       \<and> isConnected (client s') = mostRecentIsConnect False (delivered (ls @ [l]))
       \<and> (\<not> isConnected (client s) \<and> isConnected (client s') \<longrightarrow> l = Deliver Connect)
       \<and> (isConnected (client s) \<and> \<not> isConnected (client s') \<longrightarrow> l = Deliver Disconnect)"
proof -
  have i: "connected (client (connectToServer_init :: 'a sys)) = False"
    by (simp add: connectToServer_init_def)
  have a: "isConnected (client s) = mostRecentIsConnect False (delivered ls)"
    using run_connected [OF assms(1)] i by (simp add: isConnected_def)
  have b: "isConnected (client s') = mostRecentIsConnect False (delivered (ls @ [l]))"
    using run_connected [OF run_snoc [OF assms]] i by (simp add: isConnected_def)
  have c: "connected (client s') =
      (case l of Deliver n \<Rightarrow> connected (fst (notify um n (client s))) | _ \<Rightarrow> connected (client s))"
    by (rule step_connected [OF assms(2)])
  have d: "\<not> isConnected (client s) \<and> isConnected (client s') \<longrightarrow> l = Deliver Connect"
    using c by (cases l) (auto simp: isConnected_def notify_connected split: if_splits)
  have e: "isConnected (client s) \<and> \<not> isConnected (client s') \<longrightarrow> l = Deliver Disconnect"
    using c by (cases l) (auto simp: isConnected_def notify_connected split: if_splits)
  from a b d e show ?thesis by blast
qed

theorem connection_status_follows_notifications_witness:
  "run (\<lambda>t p. if p = [] then None else Some p) [DialReturns None, Deliver Connect] connectToServer_init
     = Some \<lparr>client = \<lparr>connected = True\<rparr>, doneCh = False, dial = DialSending None,
             pending = [StatusConnected], dialing = True, returned = False, trace = []\<rparr>
   \<and> step (\<lambda>t p. if p = [] then None else Some p) (Deliver Disconnect)
        \<lparr>client = \<lparr>connected = True\<rparr>, doneCh = False, dial = DialSending None,
         pending = [StatusConnected], dialing = True, returned = False, trace = []\<rparr>
     = Some \<lparr>client = \<lparr>connected = False\<rparr>, doneCh = False, dial = DialSending None,
             pending = [StatusConnected], dialing = True, returned = False, trace = []\<rparr>
   \<and> mostRecentIsConnect False (delivered [DialReturns None, Deliver Connect])
   \<and> \<not> mostRecentIsConnect False (delivered ([DialReturns None, Deliver Connect] @ [Deliver Disconnect]))"
  using connection_status_follows_notifications
    [of "\<lambda>t p. if p = [] then None else Some p" "[DialReturns None, Deliver Connect]"
        "\<lparr>client = \<lparr>connected = True\<rparr>, doneCh = False, dial = DialSending None,
          pending = [StatusConnected], dialing = True, returned = False, trace = []\<rparr>"
        "Deliver Disconnect"
        "\<lparr>client = \<lparr>connected = False\<rparr>, doneCh = False, dial = DialSending None,
          pending = [StatusConnected], dialing = True, returned = False, trace = []\<rparr>"]
  by (simp add: connectToServer_init_def ConnectNotify_def DisconnectNotify_def setStatus_def
      all_sends_def isConnected_def)

subsection \<open>The RegistrationReady sentinel\<close>

lemma decode_sends:
  "concat (map sends_of (decode um t wrap msg p)) = (case um t p of None \<Rightarrow> [] | Some v \<Rightarrow> [wrap v])"
  by (simp add: decode_def split: option.splits)

lemma notify_sends:
  "all_sends (snd (notify um n c)) =
     (case n of
        Connect \<Rightarrow> [StatusConnected]
      | Command AssignPublicIP p \<Rightarrow> (case um TAssignIP p of None \<Rightarrow> [] | Some v \<Rightarrow> [CommandAssignPublicIP v])
      | Command ReleasePublicIP p \<Rightarrow> (case um TReleaseIP p of None \<Rightarrow> [] | Some v \<Rightarrow> [CommandReleasePublicIP v])
      | Event TenantAdded p \<Rightarrow> (case um TTenantAdded p of None \<Rightarrow> [] | Some v \<Rightarrow> [EventTenantAdded v])
      | Event TenantRemoved p \<Rightarrow> (case um TTenantRemoved p of None \<Rightarrow> [] | Some v \<Rightarrow> [EventTenantRemoved v])
      | _ \<Rightarrow> [])"
proof (cases n)
  case (Command x p) then show ?thesis by (cases x) (simp_all add: all_sends_def decode_sends)
next
  case (Event x p) then show ?thesis by (cases x) (simp_all add: all_sends_def decode_sends)
qed (simp_all add: all_sends_def ConnectNotify_def DisconnectNotify_def StatusNotify_def ErrorNotify_def)

lemma notify_no_registration:
  "n \<noteq> Connect \<Longrightarrow> StatusConnected \<notin> set (all_sends (snd (notify um n c)))"
  by (simp add: notify_sends split: notification.splits ssntp_command.splits ssntp_event.splits option.splits)

lemma processCommand_sends: "all_sends (processCommand res c) = []"
  by (cases c) (simp_all add: all_sends_def task_def)

lemma count_list_remove_nth:
  "i < length xs \<Longrightarrow> count_list (take i xs) x + count_list (drop (Suc i) xs) x \<le> count_list xs x"
proof -
  assume "i < length xs"
  then have "xs = take i xs @ xs ! i # drop (Suc i) xs" by (rule id_take_nth_drop)
  then have "count_list xs x = count_list (take i xs @ xs ! i # drop (Suc i) xs) x" by simp
  then show ?thesis by (simp del: append_take_drop_id)
qed

lemma step_pending_registration:
  assumes "step um l s = Some s'" and "l \<noteq> Deliver Connect"
  shows "count_list (pending s') StatusConnected \<le> count_list (pending s) StatusConnected"
proof (cases l)
  case (Deliver n)
  with assms(2) have "n \<noteq> Connect" by simp
  then have "count_list (all_sends (snd (notify um n (client s)))) StatusConnected = 0"
    using notify_no_registration [of n um "client s"] by (simp add: count_list_0_iff)
  with assms(1) Deliver show ?thesis by (auto split: prod.splits)
next
  case (SelectCmdCh i res)
  with assms(1) show ?thesis
    by (cases "case_cmdCh (doneCh s) res (pending s ! i) (dialing s) :: bool \<times> control \<times> 'a effect list")
       (auto split: if_splits simp: count_list_remove_nth)
next
  case SelectDialCh
  with assms(1) show ?thesis
    by (auto split: if_splits dial_task.splits simp: case_dialCh_def)
next
  case SelectDoneCh
  with assms(1) show ?thesis by (auto split: if_splits simp: case_doneCh_def)
qed (use assms(1) in \<open>auto split: if_splits\<close>)

text \<open>
  C2. The connect callback produces exactly one \<open>statusConnected\<close> command, and no
  other callback produces one, whatever the payload decodes to. Delivering a connect
  notification adds exactly that one command to those waiting on \<open>cmdCh\<close>, whatever is
  waiting there already; no other step adds one, and \<open>processCommand\<close> sends nothing on
  \<open>cmdCh\<close>.
\<close>

theorem registration_ready_once_per_connect:
  "all_sends (snd (notify um Connect c)) = [StatusConnected]
   \<and> (n \<noteq> Connect \<longrightarrow> StatusConnected \<notin> set (all_sends (snd (notify um n c))))
   \<and> (\<exists>s'. step um (Deliver Connect) s = Some s' \<and> pending s' = pending s @ [StatusConnected])
   \<and> (l \<noteq> Deliver Connect \<and> step um l s = Some s''
        \<longrightarrow> count_list (pending s'') StatusConnected \<le> count_list (pending s) StatusConnected)
   \<and> all_sends (processCommand res c') = []"
proof -
  have a: "all_sends (snd (notify um Connect c)) = [StatusConnected]"
    using notify_sends [of um Connect c] by simp
  have b: "n \<noteq> Connect \<longrightarrow> StatusConnected \<notin> set (all_sends (snd (notify um n c)))"
    by (simp add: notify_no_registration)
  have c: "\<exists>s'. step um (Deliver Connect) s = Some s' \<and> pending s' = pending s @ [StatusConnected]"
    by (simp add: ConnectNotify_def all_sends_def)
  have d: "l \<noteq> Deliver Connect \<and> step um l s = Some s''
        \<longrightarrow> count_list (pending s'') StatusConnected \<le> count_list (pending s) StatusConnected"
    using step_pending_registration by blast
  from a b c d processCommand_sends show ?thesis by blast
qed


theorem registration_ready_once_per_connect_witness:
  "Command AssignPublicIP ''a'' \<noteq> Connect
   \<and> StatusConnected \<notin> set (all_sends (snd (notify (\<lambda>t p. if p = [] then None else Some p)
         (Command AssignPublicIP ''a'') \<lparr>connected = False\<rparr>)))
   \<and> SelectCmdCh 0 None \<noteq> Deliver Connect
   \<and> step (\<lambda>t p. if p = [] then None else Some p) (SelectCmdCh 0 None)
        \<lparr>client = \<lparr>connected = True\<rparr>, doneCh = False, dial = DialDelivered,
         pending = [StatusConnected], dialing = False, returned = False, trace = []\<rparr>
      = Some \<lparr>client = \<lparr>connected = True\<rparr>, doneCh = False, dial = DialDelivered,
              pending = [], dialing = False, returned = False,
              trace = [Glog LInfo ''cmd channel: %v'', Glog LInfo ''Processing: status connected'',
                       SendNetworkEvent ConcentratorInstanceAdded]\<rparr>
   \<and> count_list ([] :: string cmd list) StatusConnected \<le> count_list [StatusConnected :: string cmd] StatusConnected"
  using registration_ready_once_per_connect
    [of "\<lambda>t p. if p = [] then None else Some p" "\<lparr>connected = False\<rparr>" "Command AssignPublicIP ''a''"
        "\<lparr>client = \<lparr>connected = True\<rparr>, doneCh = False, dial = DialDelivered,
          pending = [StatusConnected], dialing = False, returned = False, trace = []\<rparr>"
        "SelectCmdCh 0 None"
        "\<lparr>client = \<lparr>connected = True\<rparr>, doneCh = False, dial = DialDelivered,
          pending = [], dialing = False, returned = False,
          trace = [Glog LInfo ''cmd channel: %v'', Glog LInfo ''Processing: status connected'',
                   SendNetworkEvent ConcentratorInstanceAdded]\<rparr>"
        None StatusConnected]
  by (simp add: case_cmdCh_def all_sends_def decode_def)

subsection \<open>The deferred send on statusCh\<close>

lemma processCommand_no_status: "count_list (processCommand res c) StatusChSend = 0"
  by (cases c) (simp_all add: task_def)

lemma step_status_count:
  assumes "step um l s = Some s'"
    and "count_list (trace s) StatusChSend = (if returned s then 1 else 0)"
  shows "count_list (trace s') StatusChSend = (if returned s' then 1 else 0)"
proof (cases l)
  case (Deliver n)
  with assms show ?thesis by (auto split: prod.splits)
next
  case CloseDone
  with assms show ?thesis by (auto split: if_splits)
next
  case (DialReturns e)
  with assms show ?thesis by (auto split: if_splits)
next
  case SelectDialCh
  with assms show ?thesis
    by (auto split: if_splits dial_task.splits simp: case_dialCh_def)
next
  case SelectDoneCh
  with assms show ?thesis by (auto split: if_splits simp: case_doneCh_def)
next
  case (SelectCmdCh i res)
  with assms show ?thesis
    by (auto split: if_splits simp: case_cmdCh_def processCommand_no_status)
qed

lemma run_status_count:
  "run um ls s = Some s' \<Longrightarrow>
   count_list (trace s) StatusChSend = (if returned s then 1 else 0) \<Longrightarrow>
   count_list (trace s') StatusChSend = (if returned s' then 1 else 0)"
proof (induction ls arbitrary: s)
  case Nil
  then show ?case by simp
next
  case (Cons l ls)
  from Cons.prems(1) obtain s1 where s1: "step um l s = Some s1" and r: "run um ls s1 = Some s'"
    by (auto split: option.splits)
  from step_status_count [OF s1 Cons.prems(2)] Cons.IH [OF r] show ?case by blast
qed

lemma step_after_return:
  "step um l s = Some s' \<Longrightarrow> returned s \<Longrightarrow> returned s' \<and> trace s' = trace s \<and> dial s' = (case l of DialReturns e \<Rightarrow> DialSending e | _ \<Rightarrow> dial s)"
  by (cases l) (auto split: if_splits prod.splits)

lemma run_after_return:
  "run um ls s = Some s' \<Longrightarrow> returned s \<Longrightarrow> returned s' \<and> trace s' = trace s"
proof (induction ls arbitrary: s)
  case Nil
  then show ?case by simp
next
  case (Cons l ls)
  from Cons.prems(1) obtain s1 where s1: "step um l s = Some s1" and r: "run um ls s1 = Some s'"
    by (auto split: option.splits)
  from step_after_return [OF s1 Cons.prems(2)] Cons.IH [OF r] show ?case by simp
qed

lemma step_return_sends:
  assumes "step um l x = Some x'" and "\<not> returned x" and "returned x'"
  shows "\<exists>es. trace x' = trace x @ es @ [StatusChSend] \<and> StatusChSend \<notin> set es"
proof (cases l)
  case (Deliver n)
  with assms show ?thesis by (auto split: prod.splits)
next
  case CloseDone
  with assms show ?thesis by (auto split: if_splits)
next
  case (DialReturns e)
  with assms show ?thesis by (auto split: if_splits)
next
  case SelectDialCh
  with assms show ?thesis
    by (auto split: if_splits dial_task.splits simp: case_dialCh_def)
next
  case SelectDoneCh
  with assms show ?thesis by (auto split: if_splits simp: case_doneCh_def)
next
  case (SelectCmdCh i res)
  with assms show ?thesis
    by (auto split: if_splits simp: case_cmdCh_def)
qed

lemma exit_dial_failure:
  assumes "\<not> returned a" and "dial a = DialSending (Some e)"
  shows "\<exists>a'. step um SelectDialCh a = Some a' \<and> returned a' \<and> trace a' = trace a @ [StatusChSend]"
  using assms by (simp add: case_dialCh_def)

lemma exit_done_connected:
  assumes "\<not> returned c" and "doneCh c" and "\<not> dialing c"
  shows "\<exists>c'. step um SelectDoneCh c = Some c' \<and> returned c' \<and> trace c' = trace c @ [Close, StatusChSend]"
  using assms by (simp add: case_doneCh_def)

lemma exit_done_command:
  assumes "\<not> returned d" and "doneCh d" and "i < length (pending d)"
  shows "\<exists>d'. step um (SelectCmdCh i res) d = Some d' \<and> returned d' \<and> trace d' = trace d @ [Close, StatusChSend]"
  using assms by (simp add: case_cmdCh_def)

lemma exit_done_dialing:
  assumes "\<not> returned b" and "doneCh b" and "dialing b" and "dial b = DialRunning"
  shows "\<exists>b1 b'. step um SelectDoneCh b = Some b1 \<and> \<not> returned b1 \<and> trace b1 = trace b @ [Close]
           \<and> run um (DialReturns r # SelectDialCh # (if r = None then [SelectDoneCh] else [])) b1 = Some b'
           \<and> returned b'
           \<and> trace b' = trace b @ [Close] @ (if r = None then [Close] else []) @ [StatusChSend]"
  using assms by (cases r) (simp_all add: case_doneCh_def case_dialCh_def)

text \<open>
  C4. However \<open>connectToServer\<close> got where it is, it has sent on \<open>statusCh\<close>
  exactly once if it has returned, and not at all if it has not. Each of the four ways out
  is taken and ends in that send: a failed dial; shutdown while dialing, where the loop
  closes the session, waits for the dial result and then leaves; shutdown while connected;
  and shutdown seen on the command path. Whatever step makes the function return, the
  deferred send is the last thing it does and happens once, and nothing is sent after the
  return.
\<close>

theorem status_sent_exactly_once_on_return:
  "(run um ls connectToServer_init = Some s \<longrightarrow>
      count_list (trace s) StatusChSend = (if returned s then 1 else 0))
   \<and> (\<not> returned a \<and> dial a = DialSending (Some e) \<longrightarrow>
        (\<exists>a'. step um SelectDialCh a = Some a' \<and> returned a'
             \<and> trace a' = trace a @ [StatusChSend]))
   \<and> (\<not> returned b \<and> doneCh b \<and> dialing b \<and> dial b = DialRunning \<longrightarrow>
        (\<exists>b1 b'. step um SelectDoneCh b = Some b1 \<and> \<not> returned b1 \<and> trace b1 = trace b @ [Close]
             \<and> run um (DialReturns r # SelectDialCh # (if r = None then [SelectDoneCh] else [])) b1
                 = Some b'
             \<and> returned b'
             \<and> trace b' = trace b @ [Close] @ (if r = None then [Close] else []) @ [StatusChSend]))
   \<and> (\<not> returned c \<and> doneCh c \<and> \<not> dialing c \<longrightarrow>
        (\<exists>c'. step um SelectDoneCh c = Some c' \<and> returned c'
             \<and> trace c' = trace c @ [Close, StatusChSend]))
   \<and> (\<not> returned d \<and> doneCh d \<and> i < length (pending d) \<longrightarrow>
        (\<exists>d'. step um (SelectCmdCh i res) d = Some d' \<and> returned d'
             \<and> trace d' = trace d @ [Close, StatusChSend]))
   \<and> (step um l x = Some x' \<and> \<not> returned x \<and> returned x' \<longrightarrow>
        (\<exists>es. trace x' = trace x @ es @ [StatusChSend] \<and> StatusChSend \<notin> set es))
   \<and> (step um k y = Some y' \<and> returned y \<longrightarrow> returned y' \<and> trace y' = trace y)"
proof -
  have 1: "run um ls connectToServer_init = Some s \<longrightarrow>
      count_list (trace s) StatusChSend = (if returned s then 1 else 0)"
    using run_status_count [of um ls connectToServer_init s]
    by (simp add: connectToServer_init_def)
  have 7: "step um k y = Some y' \<and> returned y \<longrightarrow> returned y' \<and> trace y' = trace y"
    using step_after_return [of um k y y'] by simp
  from 1 exit_dial_failure [of a e um] exit_done_dialing [of b um r] exit_done_connected [of c um]
    exit_done_command [of d i um res] step_return_sends [of um l x x'] 7
  show ?thesis by blast
qed

theorem status_sent_exactly_once_on_return_witness:
  "run (\<lambda>t p. if p = [] then None else Some p)
      [CloseDone, SelectDoneCh, DialReturns None, SelectDialCh, SelectDoneCh] connectToServer_init
     = Some \<lparr>client = \<lparr>connected = False\<rparr>, doneCh = True, dial = DialDelivered,
             pending = [], dialing = False, returned = True,
             trace = [Close, Close, StatusChSend :: string effect]\<rparr>
   \<and> count_list [Close, Close, StatusChSend :: string effect] StatusChSend = 1
   \<and> step (\<lambda>t p. if p = [] then None else Some p) SelectDialCh
        \<lparr>client = \<lparr>connected = False\<rparr>, doneCh = False, dial = DialSending (Some ''refused''),
         pending = [], dialing = True, returned = False, trace = []\<rparr>
      = Some \<lparr>client = \<lparr>connected = False\<rparr>, doneCh = False, dial = DialDelivered,
              pending = [], dialing = False, returned = True, trace = [StatusChSend :: string effect]\<rparr>
   \<and> step (\<lambda>t p. if p = [] then None else Some p) SelectDoneCh
        \<lparr>client = \<lparr>connected = True\<rparr>, doneCh = True, dial = DialDelivered,
         pending = [CommandAssignPublicIP ''a''], dialing = False, returned = False, trace = []\<rparr>
      = Some \<lparr>client = \<lparr>connected = True\<rparr>, doneCh = True, dial = DialDelivered,
              pending = [CommandAssignPublicIP ''a''], dialing = False, returned = True,
              trace = [Close, StatusChSend]\<rparr>
   \<and> step (\<lambda>t p. if p = [] then None else Some p) (SelectCmdCh 0 None)
        \<lparr>client = \<lparr>connected = True\<rparr>, doneCh = True, dial = DialDelivered,
         pending = [CommandAssignPublicIP ''a''], dialing = False, returned = False, trace = []\<rparr>
      = Some \<lparr>client = \<lparr>connected = True\<rparr>, doneCh = True, dial = DialDelivered,
              pending = [], dialing = False, returned = True, trace = [Close, StatusChSend]\<rparr>
   \<and> step (\<lambda>t p. if p = [] then None else Some p) (Deliver Disconnect)
        \<lparr>client = \<lparr>connected = True\<rparr>, doneCh = True, dial = DialDelivered,
         pending = [], dialing = False, returned = True, trace = [Close, StatusChSend :: string effect]\<rparr>
      = Some \<lparr>client = \<lparr>connected = False\<rparr>, doneCh = True, dial = DialDelivered,
              pending = [], dialing = False, returned = True, trace = [Close, StatusChSend]\<rparr>"
proof -
  let ?um = "\<lambda>(t::target) p::payload. if p = [] then None else Some p"
  let ?c = "\<lparr>client = \<lparr>connected = True\<rparr>, doneCh = True, dial = DialDelivered,
         pending = [CommandAssignPublicIP ''a''], dialing = False, returned = False,
         trace = [] :: string effect list\<rparr>"
  let ?c' = "\<lparr>client = \<lparr>connected = True\<rparr>, doneCh = True, dial = DialDelivered,
         pending = [CommandAssignPublicIP ''a''], dialing = False, returned = True,
         trace = [Close, StatusChSend :: string effect]\<rparr>"
  let ?y = "\<lparr>client = \<lparr>connected = True\<rparr>, doneCh = True, dial = DialDelivered,
         pending = [], dialing = False, returned = True, trace = [Close, StatusChSend :: string effect]\<rparr>"
  show ?thesis
    using status_sent_exactly_once_on_return
      [where um = ?um and ls = "[CloseDone, SelectDoneCh, DialReturns None, SelectDialCh, SelectDoneCh]"
         and s = "\<lparr>client = \<lparr>connected = False\<rparr>, doneCh = True, dial = DialDelivered,
             pending = [], dialing = False, returned = True,
             trace = [Close, Close, StatusChSend]\<rparr>"
         and a = "\<lparr>client = \<lparr>connected = False\<rparr>, doneCh = False, dial = DialSending (Some ''refused''),
             pending = [], dialing = True, returned = False, trace = []\<rparr>"
         and e = "''refused''"
         and b = "\<lparr>client = \<lparr>connected = False\<rparr>, doneCh = True, dial = DialRunning,
             pending = [], dialing = True, returned = False, trace = []\<rparr>"
         and r = None
         and c = ?c and d = ?c and i = 0 and res = None
         and l = SelectDoneCh and x = ?c and x' = ?c'
         and k = "Deliver Disconnect" and y = ?y
         and y' = "\<lparr>client = \<lparr>connected = False\<rparr>, doneCh = True, dial = DialDelivered,
              pending = [], dialing = False, returned = True, trace = [Close, StatusChSend]\<rparr>"]
    by (simp add: connectToServer_init_def case_dialCh_def case_doneCh_def case_cmdCh_def
        DisconnectNotify_def setStatus_def all_sends_def)
qed

subsection \<open>Shutdown seen on the command path\<close>

text \<open>
  C5. When the loop receives a command it looks at \<open>doneCh\<close> before acting. If the
  channel is closed, the command is dropped: the loop closes the session and returns, and
  whatever happens afterwards it does nothing more, so no command is dispatched any more.
  If the channel is not closed, the command is logged and handed to \<open>processCommand\<close>.
\<close>

theorem shutdown_checked_before_command:
  assumes "\<not> returned s" and "i < length (pending s)"
  shows "\<exists>s'. step um (SelectCmdCh i res) s = Some s' \<and>
           (if doneCh s
            then returned s' \<and> trace s' = trace s @ [Close, StatusChSend]
                 \<and> (\<forall>ls s''. run um ls s' = Some s'' \<longrightarrow> returned s'' \<and> trace s'' = trace s')
            else \<not> returned s'
                 \<and> trace s' = trace s @ Glog LInfo ''cmd channel: %v'' # processCommand res (pending s ! i))"
proof (cases "doneCh s")
  case True
  let ?s' = "finish (case_cmdCh (doneCh s) res (pending s ! i) (dialing s))
               (s\<lparr>pending := take i (pending s) @ drop (Suc i) (pending s)\<rparr>)"
  have st: "step um (SelectCmdCh i res) s = Some ?s'" using assms by simp
  have r: "returned ?s'" and t: "trace ?s' = trace s @ [Close, StatusChSend]"
    using True by (simp_all add: case_cmdCh_def)
  have "\<forall>ls s''. run um ls ?s' = Some s'' \<longrightarrow> returned s'' \<and> trace s'' = trace ?s'"
    using run_after_return r by blast
  with st r t True show ?thesis by simp
next
  case False
  with assms show ?thesis by (simp add: case_cmdCh_def)
qed


theorem shutdown_checked_before_command_witness:
  "\<not> returned \<lparr>client = \<lparr>connected = True\<rparr>, doneCh = True, dial = DialDelivered,
         pending = [CommandAssignPublicIP ''a''], dialing = False, returned = False, trace = []\<rparr>
   \<and> (0::nat) < length [CommandAssignPublicIP ''a'']
   \<and> step (\<lambda>t p. if p = [] then None else Some p) (SelectCmdCh 0 None)
        \<lparr>client = \<lparr>connected = True\<rparr>, doneCh = True, dial = DialDelivered,
         pending = [CommandAssignPublicIP ''a''], dialing = False, returned = False, trace = []\<rparr>
      = Some \<lparr>client = \<lparr>connected = True\<rparr>, doneCh = True, dial = DialDelivered,
              pending = [], dialing = False, returned = True, trace = [Close, StatusChSend]\<rparr>"
  using shutdown_checked_before_command
    [where um = "\<lambda>t p. if p = [] then None else Some p" and i = 0 and res = None
       and s = "\<lparr>client = \<lparr>connected = True\<rparr>, doneCh = True, dial = DialDelivered,
         pending = [CommandAssignPublicIP ''a''], dialing = False, returned = False, trace = []\<rparr>"]
  by (simp add: case_cmdCh_def)

subsection \<open>Registration\<close>

text \<open>
  C6. When the loop takes a \<open>statusConnected\<close> command (and shutdown has not been
  requested), it sends the registration event itself, not from a new goroutine; when the
  send fails it logs the error once and does nothing else: it does not send again, it has
  not returned, and it accepts any further command. The four network commands, by contrast,
  only start a goroutine, which makes the backend call.
\<close>

theorem registration_sent_synchronously:
  assumes "\<not> returned s" and "\<not> doneCh s" and "i < length (pending s)"
    and "pending s ! i = StatusConnected"
  shows "(\<exists>s'. step um (SelectCmdCh i res) s = Some s'
           \<and> trace s' = trace s @
                [Glog LInfo ''cmd channel: %v'', Glog LInfo ''Processing: status connected'',
                 SendNetworkEvent ConcentratorInstanceAdded]
                @ (if res \<noteq> None then [Glog LError ''Unable to register : %v''] else [])
           \<and> \<not> returned s' \<and> dialing s' = dialing s
           \<and> (\<forall>j r. j < length (pending s') \<longrightarrow> step um (SelectCmdCh j r) s' \<noteq> None))
       \<and> (\<exists>body. processCommand res (EventTenantAdded v) = [Go body] \<and> Call AddRemoteSubnet v \<in> set body)
       \<and> (\<exists>body. processCommand res (EventTenantRemoved v) = [Go body] \<and> Call DelRemoteSubnet v \<in> set body)
       \<and> (\<exists>body. processCommand res (CommandAssignPublicIP v) = [Go body] \<and> Call AssignPubIP v \<in> set body)
       \<and> (\<exists>body. processCommand res (CommandReleasePublicIP v) = [Go body] \<and> Call ReleasePubIP v \<in> set body)"
proof -
  let ?s' = "finish (case_cmdCh (doneCh s) res (pending s ! i) (dialing s))
               (s\<lparr>pending := take i (pending s) @ drop (Suc i) (pending s)\<rparr>)"
  have st: "step um (SelectCmdCh i res) s = Some ?s'" using assms by simp
  have t: "trace ?s' = trace s @
                [Glog LInfo ''cmd channel: %v'', Glog LInfo ''Processing: status connected'',
                 SendNetworkEvent ConcentratorInstanceAdded]
                @ (if res \<noteq> None then [Glog LError ''Unable to register : %v''] else [])"
    using assms by (simp add: case_cmdCh_def)
  have r: "\<not> returned ?s'" and d: "dialing ?s' = dialing s"
    using assms by (simp_all add: case_cmdCh_def)
  have n: "\<forall>j r. j < length (pending ?s') \<longrightarrow> step um (SelectCmdCh j r) ?s' \<noteq> None"
    using r by (simp del: finish.simps)
  have g: "(\<exists>body. processCommand res (EventTenantAdded v) = [Go body] \<and> Call AddRemoteSubnet v \<in> set body)
       \<and> (\<exists>body. processCommand res (EventTenantRemoved v) = [Go body] \<and> Call DelRemoteSubnet v \<in> set body)
       \<and> (\<exists>body. processCommand res (CommandAssignPublicIP v) = [Go body] \<and> Call AssignPubIP v \<in> set body)
       \<and> (\<exists>body. processCommand res (CommandReleasePublicIP v) = [Go body] \<and> Call ReleasePubIP v \<in> set body)"
    by (simp add: task_def)
  from st t r d n g show ?thesis by blast
qed

theorem registration_sent_synchronously_witness:
  "\<not> returned \<lparr>client = \<lparr>connected = True\<rparr>, doneCh = False, dial = DialDelivered,
         pending = [StatusConnected :: string cmd], dialing = False, returned = False, trace = []\<rparr>
   \<and> \<not> doneCh \<lparr>client = \<lparr>connected = True\<rparr>, doneCh = False, dial = DialDelivered,
         pending = [StatusConnected :: string cmd], dialing = False, returned = False, trace = []\<rparr>
   \<and> (0::nat) < length [StatusConnected :: string cmd]
   \<and> [StatusConnected :: string cmd] ! 0 = StatusConnected
   \<and> step (\<lambda>t p. if p = [] then None else Some p) (SelectCmdCh 0 (Some ''not connected''))
        \<lparr>client = \<lparr>connected = True\<rparr>, doneCh = False, dial = DialDelivered,
         pending = [StatusConnected], dialing = False, returned = False, trace = []\<rparr>
      = Some \<lparr>client = \<lparr>connected = True\<rparr>, doneCh = False, dial = DialDelivered,
              pending = [], dialing = False, returned = False,
              trace = [Glog LInfo ''cmd channel: %v'', Glog LInfo ''Processing: status connected'',
                       SendNetworkEvent ConcentratorInstanceAdded,
                       Glog LError ''Unable to register : %v'']\<rparr>"
  using registration_sent_synchronously
    [where um = "\<lambda>t p. if p = [] then None else Some p" and i = 0 and res = "Some ''not connected''"
       and v = "''v''"
       and s = "\<lparr>client = \<lparr>connected = True\<rparr>, doneCh = False, dial = DialDelivered,
         pending = [StatusConnected], dialing = False, returned = False, trace = []\<rparr>"]
  by (simp add: case_cmdCh_def)

subsection \<open>Decode failures\<close>

lemma decode_fails_notify:
  assumes "decode_fails um n"
  shows "fst (notify um n c) = c"
    and "all_sends (snd (notify um n c)) = []"
    and "Go [Glog LWarning ''Error unmarshalling StartFailure''] \<in> set (snd (notify um n c))"
proof -
  have "fst (notify um n c) = c \<and> all_sends (snd (notify um n c)) = []
      \<and> Go [Glog LWarning ''Error unmarshalling StartFailure''] \<in> set (snd (notify um n c))"
  proof (cases n)
    case (Command x p)
    with assms show ?thesis by (cases x) (simp_all add: all_sends_def decode_def)
  next
    case (Event x p)
    with assms show ?thesis by (cases x) (simp_all add: all_sends_def decode_def)
  qed (use assms in simp_all)
  then show "fst (notify um n c) = c"
    and "all_sends (snd (notify um n c)) = []"
    and "Go [Glog LWarning ''Error unmarshalling StartFailure''] \<in> set (snd (notify um n c))"
    by simp_all
qed

lemma decode_fails_step:
  assumes "decode_fails um n"
  shows "step um (Deliver n) s = Some s"
proof -
  obtain c es where n: "notify um n (client s) = (c, es)" by (cases "notify um n (client s)")
  from decode_fails_notify(1,2) [OF assms, of "client s"] n
  have "c = client s" and "all_sends es = []" by simp_all
  with n show ?thesis by simp
qed

text \<open>
  C7. When the payload of a command or event notification fails to decode, the callback's
  goroutine logs a warning and sends no command, and the client is unchanged. The failure
  touches nothing else: a run in which the notification is delivered at some point ends
  exactly as the same run without it, so everything that arrives later is decoded and
  dispatched as if the failed notification had never come.
\<close>

theorem decode_failure_is_isolated:
  assumes "decode_fails um n"
  shows "all_sends (snd (notify um n c)) = []
       \<and> Go [Glog LWarning ''Error unmarshalling StartFailure''] \<in> set (snd (notify um n c))
       \<and> fst (notify um n c) = c
       \<and> run um (ls1 @ Deliver n # ls2) s = run um (ls1 @ ls2) s"
proof -
  have "run um (ls1 @ Deliver n # ls2) s = run um (ls1 @ ls2) s"
  proof (cases "run um ls1 s")
    case None
    then show ?thesis by (simp add: run_append)
  next
    case (Some s1)
    then show ?thesis
      using decode_fails_step [OF assms, of s1] by (simp add: run_append del: step.simps)
  qed
  with decode_fails_notify [OF assms, of c] show ?thesis by simp
qed

theorem decode_failure_is_isolated_witness:
  "decode_fails (\<lambda>t p. if p = [] then None else Some p) (Command ReleasePublicIP [])
   \<and> run (\<lambda>t p. if p = [] then None else Some p)
       ([] @ Deliver (Command ReleasePublicIP []) # [Deliver (Event TenantAdded ''t''), SelectCmdCh 0 None])
       connectToServer_init
     = Some \<lparr>client = \<lparr>connected = False\<rparr>, doneCh = False, dial = DialRunning,
             pending = [], dialing = True, returned = False,
             trace = [Glog LInfo ''cmd channel: %v'',
                      Go [Glog LInfo ''Processing: CiaoEventTenantAdded %v'', Call AddRemoteSubnet ''t'']]\<rparr>"
  using decode_failure_is_isolated
    [where um = "\<lambda>t p. if p = [] then None else Some p" and n = "Command ReleasePublicIP []"
       and c = "\<lparr>connected = False\<rparr>" and ?ls1.0 = "[]"
       and ?ls2.0 = "[Deliver (Event TenantAdded ''t''), SelectCmdCh 0 None]"
       and s = connectToServer_init]
  by (simp add: connectToServer_init_def case_cmdCh_def all_sends_def decode_def task_def)

subsection \<open>Shutdown while dialing\<close>

text \<open>
  Once \<open>connectToServer\<close> has returned, a result that the dial goroutine is sending
  on \<open>dialCh\<close> is never received.
\<close>

lemma run_after_return_dial:
  "run um ls s = Some s' \<Longrightarrow> returned s \<Longrightarrow> dial s = DialSending e \<Longrightarrow> dial s' = DialSending e"
proof (induction ls arbitrary: s)
  case Nil
  then show ?case by simp
next
  case (Cons l ls)
  from Cons.prems(1) obtain s1 where s1: "step um l s = Some s1" and r: "run um ls s1 = Some s'"
    by (auto split: option.splits)
  from s1 Cons.prems(2,3) have "returned s1 \<and> dial s1 = DialSending e"
    by (cases l) (auto split: if_splits prod.splits)
  with Cons.IH [OF r] show ?case by simp
qed

text \<open>
  C3. The claim fails on the command path. Shutdown is requested while \<open>Dial\<close> is
  running; the loop takes the \<open>doneCh\<close> case, closes the session and goes on waiting,
  since \<open>dialing\<close> is true. \<open>Dial\<close> then returns without error and the connect
  notification is delivered, so a sender waits on \<open>dialCh\<close> and another on
  \<open>cmdCh\<close>. The \<open>select\<close> takes the command: the inner \<open>select\<close> finds
  \<open>doneCh\<close> closed and leaves the loop without looking at \<open>dialing\<close>. The function
  has returned while the dial goroutine is still blocked in its send, and the receive from
  \<open>dialCh\<close> can never happen.
\<close>

theorem shutdown_on_command_path_abandons_dial:
  "run (\<lambda>t p. None) [CloseDone, SelectDoneCh, DialReturns None, Deliver Connect, SelectCmdCh 0 None]
      connectToServer_init
     = Some \<lparr>client = \<lparr>connected = True\<rparr>, doneCh = True, dial = DialSending None,
             pending = [], dialing = True, returned = True,
             trace = [Close, Close, StatusChSend :: string effect]\<rparr>
   \<and> step (\<lambda>t p. None) SelectDialCh
        \<lparr>client = \<lparr>connected = True\<rparr>, doneCh = True, dial = DialSending None,
         pending = [], dialing = True, returned = True,
         trace = [Close, Close, StatusChSend :: string effect]\<rparr> = None"
  by (simp add: connectToServer_init_def case_doneCh_def case_cmdCh_def ConnectNotify_def
      setStatus_def all_sends_def)

subsection \<open>The loop of main\<close>

text \<open>
  The shutdown protocol of \<open>main\<close> without its timing: the first signal closes
  \<open>doneCh\<close> and starts the goroutine that sends on \<open>timeoutCh\<close> after one second,
  and receiving from \<open>statusCh\<close> or from \<open>timeoutCh\<close> ends the loop. How long the
  timer goroutine and the \<open>select\<close> take to run is not part of the model.
\<close>

lemma main_first_signal:
  assumes "phase s = Looping" and "\<not> done_closed s"
  shows "\<exists>s'. main_step FromSignalCh s = Some s' \<and> phase s' = Looping \<and> done_closed s'
           \<and> timeouts s' = Suc (timeouts s)
           \<and> main_step FromTimeoutCh s' \<noteq> None"
  using assms by (simp add: close_chan_def)

lemma main_leaves_loop:
  assumes "main_step c s = Some s'" and "c = FromStatusCh \<or> c = FromTimeoutCh"
  shows "phase s' = Exited \<and> main_step c' s' = None"
proof -
  from assms have "phase s' = Exited"
    by (auto simp: leave_def split: if_splits)
  then show ?thesis by (cases c') simp_all
qed

text \<open>
  C8. The claim fails in \<open>main\<close>: the first termination signal closes \<open>doneCh\<close>
  and arms the timer; when the \<open>select\<close> takes a second signal before \<open>statusCh\<close>
  or \<open>timeoutCh\<close>, \<open>close(doneCh)\<close> is executed on the closed channel and the
  process panics.
\<close>

theorem second_signal_panics:
  "main_run [FromSignalCh, FromSignalCh] main_init
     = Some \<lparr>done_closed = True, timeouts = 1, wdogs = 1, phase = Panicked,
             mtrace = [MGlog LInfo ''Received terminating signal.  Waiting for server loop to quit'',
                       CloseDoneCh, GoSleepSend 1 TimeoutCh,
                       MGlog LInfo ''Received terminating signal.  Waiting for server loop to quit'']\<rparr>"
  by (simp add: main_init_def close_chan_def)

subsection \<open>What the callbacks do inline\<close>

text \<open>
  C10, as stated, fails for the connect callback: \<open>ConnectNotify\<close> itself sends on the
  unbuffered \<open>cmdCh\<close>, so the session's goroutine is held until the connection loop
  receives.
\<close>

theorem connect_callback_sends_inline:
  "inline_sends (snd (ConnectNotify \<lparr>connected = False\<rparr>)) = [StatusConnected :: string cmd]"
  by (simp add: ConnectNotify_def inline_sends_def)

lemma notify_decoded:
  assumes "n \<noteq> Connect"
  shows "list_all hands_off (snd (notify um n c))"
    and "inline_sends (snd (notify um n c)) = []"
    and "all_sends (snd (notify um n c)) = all_sends (concat (map spawned (snd (notify um n c))))"
    and "all_sends (snd (notify um n c)) = (case decoded um n of None \<Rightarrow> [] | Some v \<Rightarrow> [v])"
    and "inline_run (snd (notify um n c)) = (case decoded um n of None \<Rightarrow> [] | Some v \<Rightarrow> [v], Idle)"
proof -
  have "list_all hands_off (snd (notify um n c))
      \<and> inline_sends (snd (notify um n c)) = []
      \<and> all_sends (snd (notify um n c)) = all_sends (concat (map spawned (snd (notify um n c))))
      \<and> all_sends (snd (notify um n c)) = (case decoded um n of None \<Rightarrow> [] | Some v \<Rightarrow> [v])
      \<and> inline_run (snd (notify um n c)) = (case decoded um n of None \<Rightarrow> [] | Some v \<Rightarrow> [v], Idle)"
  proof (cases n)
    case (Command x p)
    then show ?thesis
      by (cases x) (simp_all add: inline_sends_def all_sends_def decode_def split: option.splits)
  next
    case (Event x p)
    then show ?thesis
      by (cases x) (simp_all add: inline_sends_def all_sends_def decode_def split: option.splits)
  qed (use assms in \<open>simp_all add: inline_sends_def all_sends_def DisconnectNotify_def
        StatusNotify_def ErrorNotify_def\<close>)
  then show "list_all hands_off (snd (notify um n c))"
    and "inline_sends (snd (notify um n c)) = []"
    and "all_sends (snd (notify um n c)) = all_sends (concat (map spawned (snd (notify um n c))))"
    and "all_sends (snd (notify um n c)) = (case decoded um n of None \<Rightarrow> [] | Some v \<Rightarrow> [v])"
    and "inline_run (snd (notify um n c)) = (case decoded um n of None \<Rightarrow> [] | Some v \<Rightarrow> [v], Idle)"
    by blast+
qed

lemma callback_returns:
  assumes "n \<noteq> Connect"
  shows "\<exists>s'. sstep um (Callback n) (s, Idle) = Some (s', Idle)
           \<and> pending s' = pending s @ (case decoded um n of None \<Rightarrow> [] | Some v \<Rightarrow> [v])"
proof -
  obtain c es where n: "notify um n (client s) = (c, es)" by (cases "notify um n (client s)")
  with notify_decoded(5) [OF assms, of um "client s"]
  have "inline_run es = (case decoded um n of None \<Rightarrow> [] | Some v \<Rightarrow> [v], Idle)" by simp
  with n show ?thesis by simp
qed

lemma connect_callback_held:
  "\<exists>s'. sstep um (Callback Connect) (s, Idle)
           = Some (s', InSend StatusConnected [Glog LInfo ''connected''])
         \<and> isConnected (client s') \<and> pending s' = pending s \<and> trace s' = trace s"
  by (simp add: ConnectNotify_def setStatus_def isConnected_def)

lemma sstep_in_send:
  assumes "sstep um l (s, InSend q es) = Some (s', w')" and "\<forall>res. l \<noteq> RecvFromCallback res"
  shows "w' = InSend q es"
proof (cases l)
  case (Callback n)
  with assms show ?thesis by simp
next
  case (RecvFromCallback res)
  with assms show ?thesis by simp
next
  case (Other k)
  with assms show ?thesis by (cases k) (auto split: option.splits)
qed

lemma sstep_returned:
  assumes "sstep um l (s, InSend q es) = Some (s', w')" and "returned s"
  shows "w' = InSend q es \<and> returned s'"
proof (cases l)
  case (Callback n)
  with assms show ?thesis by simp
next
  case (RecvFromCallback res)
  with assms show ?thesis by simp
next
  case (Other k)
  with assms show ?thesis
    by (cases k) (auto split: option.splits if_splits)
qed

lemma srun_returned:
  "srun um ls (s, InSend q es) = Some (s', w') \<Longrightarrow> returned s \<Longrightarrow> w' = InSend q es"
proof (induction ls arbitrary: s)
  case Nil
  then show ?case by simp
next
  case (Cons l ls)
  from Cons.prems(1) obtain s1 w1 where 1: "sstep um l (s, InSend q es) = Some (s1, w1)"
    and 2: "srun um ls (s1, w1) = Some (s', w')"
    by (auto split: option.splits)
  from sstep_returned [OF 1 Cons.prems(2)] have "w1 = InSend q es" and "returned s1" by simp_all
  with 2 Cons.IH show ?case by blast
qed

lemma receive_releases:
  assumes "\<not> returned s"
  shows "\<exists>s'. sstep um (RecvFromCallback res) (s, InSend StatusConnected [Glog LInfo ''connected''])
            = Some (s', Idle)
          \<and> trace s' = trace s @
              (if doneCh s then [Close, StatusChSend]
               else Glog LInfo ''cmd channel: %v'' # processCommand res StatusConnected)"
  using assms by (simp add: case_cmdCh_def)

text \<open>
  C10, amended. Every callback but the connect callback returns without waiting for the
  connection loop: besides writing the flag and logging it only starts goroutines, it
  sends nothing on \<open>cmdCh\<close> itself, and the command the payload decodes to (if any) is
  sent by the goroutine it started. The connect callback sets the flag and then sends the
  \<open>statusConnected\<close> command on \<open>cmdCh\<close> itself: while it is in that send no
  further notification is delivered, no step other than the connection loop's receive of
  that command lets it go on, the receive does, and once \<open>connectToServer\<close> has
  returned it stays in the send for good.
\<close>

theorem callbacks_hand_off_except_connect:
  "(n \<noteq> Connect \<longrightarrow>
      list_all hands_off (snd (notify um n c)) \<and> inline_sends (snd (notify um n c)) = []
      \<and> all_sends (snd (notify um n c)) = all_sends (concat (map spawned (snd (notify um n c))))
      \<and> all_sends (snd (notify um n c)) = (case decoded um n of None \<Rightarrow> [] | Some v \<Rightarrow> [v])
      \<and> (\<exists>s'. sstep um (Callback n) (s, Idle) = Some (s', Idle)
             \<and> pending s' = pending s @ (case decoded um n of None \<Rightarrow> [] | Some v \<Rightarrow> [v])))
   \<and> snd (notify um Connect c) = [CmdChSend StatusConnected, Glog LInfo ''connected'']
   \<and> (\<exists>s'. sstep um (Callback Connect) (s, Idle)
              = Some (s', InSend StatusConnected [Glog LInfo ''connected''])
           \<and> isConnected (client s') \<and> pending s' = pending s \<and> trace s' = trace s)
   \<and> sstep um (Callback m) (s, InSend q es) = None
   \<and> (sstep um l (t, InSend q es) = Some (t', w) \<and> (\<forall>res. l \<noteq> RecvFromCallback res)
        \<longrightarrow> w = InSend q es)
   \<and> (\<not> returned u \<longrightarrow>
        (\<exists>u'. sstep um (RecvFromCallback res) (u, InSend StatusConnected [Glog LInfo ''connected''])
                = Some (u', Idle)
             \<and> trace u' = trace u @
                 (if doneCh u then [Close, StatusChSend]
                  else Glog LInfo ''cmd channel: %v'' # processCommand res StatusConnected)))
   \<and> (returned z \<and> srun um ls (z, InSend q es) = Some (z', w') \<longrightarrow> w' = InSend q es)"
proof -
  have a: "n \<noteq> Connect \<longrightarrow>
      list_all hands_off (snd (notify um n c)) \<and> inline_sends (snd (notify um n c)) = []
      \<and> all_sends (snd (notify um n c)) = all_sends (concat (map spawned (snd (notify um n c))))
      \<and> all_sends (snd (notify um n c)) = (case decoded um n of None \<Rightarrow> [] | Some v \<Rightarrow> [v])
      \<and> (\<exists>s'. sstep um (Callback n) (s, Idle) = Some (s', Idle)
             \<and> pending s' = pending s @ (case decoded um n of None \<Rightarrow> [] | Some v \<Rightarrow> [v]))"
    using notify_decoded(1-4) [of n um c] callback_returns [of n um s] by blast
  have b: "snd (notify um Connect c) = [CmdChSend StatusConnected, Glog LInfo ''connected'']"
    by (simp add: ConnectNotify_def)
  have d: "sstep um (Callback m) (s, InSend q es) = None" by simp
  have e: "sstep um l (t, InSend q es) = Some (t', w) \<and> (\<forall>res. l \<noteq> RecvFromCallback res)
        \<longrightarrow> w = InSend q es"
    using sstep_in_send [of um l t q es t' w] by blast
  have g: "returned z \<and> srun um ls (z, InSend q es) = Some (z', w') \<longrightarrow> w' = InSend q es"
    using srun_returned [of um ls z q es z' w'] by blast
  from a b connect_callback_held [of um s] d e receive_releases [of u um res] g
  show ?thesis by blast
qed

theorem callbacks_hand_off_except_connect_witness:
  "Command AssignPublicIP ''a'' \<noteq> Connect
   \<and> srun (\<lambda>t p. if p = [] then None else Some p)
        [Callback (Command AssignPublicIP ''a''), Callback Connect] (connectToServer_init, Idle)
      = Some (\<lparr>client = \<lparr>connected = True\<rparr>, doneCh = False, dial = DialRunning,
               pending = [CommandAssignPublicIP ''a''], dialing = True, returned = False,
               trace = []\<rparr>,
              InSend StatusConnected [Glog LInfo ''connected''])
   \<and> sstep (\<lambda>t p. if p = [] then None else Some p) (Other CloseDone)
        (\<lparr>client = \<lparr>connected = True\<rparr>, doneCh = False, dial = DialRunning,
          pending = [CommandAssignPublicIP ''a''], dialing = True, returned = False, trace = []\<rparr>,
         InSend StatusConnected [Glog LInfo ''connected''])
      = Some (\<lparr>client = \<lparr>connected = True\<rparr>, doneCh = True, dial = DialRunning,
               pending = [CommandAssignPublicIP ''a''], dialing = True, returned = False,
               trace = []\<rparr>,
              InSend StatusConnected [Glog LInfo ''connected''])
   \<and> (\<forall>res. Other CloseDone \<noteq> RecvFromCallback res)
   \<and> sstep (\<lambda>t p. if p = [] then None else Some p) (Callback Disconnect)
        (\<lparr>client = \<lparr>connected = True\<rparr>, doneCh = False, dial = DialRunning,
          pending = [CommandAssignPublicIP ''a''], dialing = True, returned = False, trace = []\<rparr>,
         InSend StatusConnected [Glog LInfo ''connected'']) = None
   \<and> sstep (\<lambda>t p. if p = [] then None else Some p) (RecvFromCallback None)
        (\<lparr>client = \<lparr>connected = True\<rparr>, doneCh = False, dial = DialRunning,
          pending = [CommandAssignPublicIP ''a''], dialing = True, returned = False, trace = []\<rparr>,
         InSend StatusConnected [Glog LInfo ''connected''])
      = Some (\<lparr>client = \<lparr>connected = True\<rparr>, doneCh = False, dial = DialRunning,
               pending = [CommandAssignPublicIP ''a''], dialing = True, returned = False,
               trace = [Glog LInfo ''cmd channel: %v'', Glog LInfo ''Processing: status connected'',
                        SendNetworkEvent ConcentratorInstanceAdded]\<rparr>,
              Idle)
   \<and> srun (\<lambda>t p. if p = [] then None else Some p) [Other CloseDone]
        (\<lparr>client = \<lparr>connected = True\<rparr>, doneCh = False, dial = DialDelivered,
          pending = [], dialing = False, returned = True, trace = [StatusChSend :: string effect]\<rparr>,
         InSend StatusConnected [Glog LInfo ''connected''])
      = Some (\<lparr>client = \<lparr>connected = True\<rparr>, doneCh = True, dial = DialDelivered,
               pending = [], dialing = False, returned = True, trace = [StatusChSend]\<rparr>,
              InSend StatusConnected [Glog LInfo ''connected''])"
proof -
  let ?um = "\<lambda>(t::target) p::payload. if p = [] then None else Some p"
  let ?t = "\<lparr>client = \<lparr>connected = True\<rparr>, doneCh = False, dial = DialRunning,
          pending = [CommandAssignPublicIP ''a''], dialing = True, returned = False,
          trace = [] :: string effect list\<rparr>"
  let ?z = "\<lparr>client = \<lparr>connected = True\<rparr>, doneCh = False, dial = DialDelivered,
          pending = [], dialing = False, returned = True, trace = [StatusChSend :: string effect]\<rparr>"
  let ?w = "InSend StatusConnected [Glog LInfo ''connected''] :: string session"
  show ?thesis
    using callbacks_hand_off_except_connect
      [where um = ?um and n = "Command AssignPublicIP ''a''" and c = "\<lparr>connected = True\<rparr>"
         and s = ?t and m = Disconnect and q = StatusConnected and es = "[Glog LInfo ''connected'']"
         and l = "Other CloseDone" and t = ?t and t' = "?t\<lparr>doneCh := True\<rparr>" and w = ?w
         and u = ?t and res = None
         and z = ?z and ls = "[Other CloseDone]" and z' = "?z\<lparr>doneCh := True\<rparr>" and w' = ?w]
    by (simp add: connectToServer_init_def ConnectNotify_def setStatus_def all_sends_def
        decode_def case_cmdCh_def)
qed

end
